theory Spec2Isabelle
  imports Main "HOL-Library.Word" "HOL-Library.Log_Nat"
begin

section \<open>JavaScript values used by the session\<close>

text \<open>
  A JavaScript string is a sequence of UTF-16 code units.  The literals of
  \<^verbatim>\<open>App.tsx\<close> are ASCII, so \<open>js\<close> turns an ASCII literal into its code units.
\<close>

type_synonym js_string = "16 word list"

definition js :: "string \<Rightarrow> js_string" where
  "js cs = map (\<lambda>c. word_of_nat (of_char c)) cs"

text \<open>
  Truthiness of a \<^verbatim>\<open>string | null\<close> value, as tested by \<^verbatim>\<open>!x\<close>, \<^verbatim>\<open>x || y\<close>
  and \<^verbatim>\<open>{x && ...}\<close>: \<^verbatim>\<open>null\<close> and the empty string are falsy.
\<close>

fun truthy :: "js_string option \<Rightarrow> bool" where
  "truthy None = False"
| "truthy (Some v) = (v \<noteq> [])"

text \<open>\<^verbatim>\<open>a || b\<close> on \<^verbatim>\<open>string | null\<close> operands.\<close>

definition js_or :: "js_string option \<Rightarrow> js_string option \<Rightarrow> js_string option" where
  "js_or a b = (if truthy a then a else b)"

text \<open>
  \<^verbatim>\<open>String.prototype.trim\<close> strips WhiteSpace and LineTerminator code points
  (ECMAScript): TAB, LF, VT, FF, CR, SP, NBSP, the Unicode space separators,
  LS, PS and the byte order mark.  All of them are single code units.
\<close>

definition js_whitespace :: "16 word \<Rightarrow> bool" where
  "js_whitespace c =
     (c = 0x0009 \<or> c = 0x000A \<or> c = 0x000B \<or> c = 0x000C \<or> c = 0x000D
      \<or> c = 0x0020 \<or> c = 0x00A0 \<or> c = 0x1680
      \<or> (0x2000 \<le> c \<and> c \<le> 0x200A)
      \<or> c = 0x2028 \<or> c = 0x2029 \<or> c = 0x202F \<or> c = 0x205F
      \<or> c = 0x3000 \<or> c = 0xFEFF)"

definition trim :: "js_string \<Rightarrow> js_string" where
  "trim t = rev (dropWhile js_whitespace (rev (dropWhile js_whitespace t)))"


section \<open>The preset catalogue\<close>

text \<open>
  \<^verbatim>\<open>Filter\<close> with its \<^verbatim>\<open>id\<close>, \<^verbatim>\<open>name\<close> and \<^verbatim>\<open>prompt\<close>; the \<^verbatim>\<open>icon\<close>
  component is presentation only and carries no session data.
\<close>

record filter =
  filter_id :: js_string
  filter_name :: js_string
  filter_prompt :: js_string

definition FILTERS :: "filter list" where
  "FILTERS =
    [\<lparr>filter_id = js ''enhance'', filter_name = js ''Auto Enhance'',
      filter_prompt = js ''Professionally enhance this image with balanced brightness, contrast, and color saturation. Make it look crisp and clear.''\<rparr>,
     \<lparr>filter_id = js ''sharpen'', filter_name = js ''Sharpen'',
      filter_prompt = js ''Increase the sharpness and clarity of this image. Bring out the fine details without creating artifacts.''\<rparr>,
     \<lparr>filter_id = js ''color_pop'', filter_name = js ''Color Pop'',
      filter_prompt = js ''Make the colors in this image more vibrant and saturated. Enhance the overall color pop, especially in the main subject.''\<rparr>,
     \<lparr>filter_id = js ''vintage'', filter_name = js ''Vintage'',
      filter_prompt = js ''Apply a vintage film look to this image. Add a slight grain, desaturate the colors a bit, and give it a warm, nostalgic feel.''\<rparr>,
     \<lparr>filter_id = js ''grayscale'', filter_name = js ''Grayscale'',
      filter_prompt = js ''Convert this image to a high-contrast black and white.''\<rparr>]"


section \<open>The session: the state of \<^verbatim>\<open>App\<close>\<close>

text \<open>The six \<^verbatim>\<open>useState\<close> cells of \<^verbatim>\<open>App\<close>, under the source's names.\<close>

record session =
  originalImage :: "js_string option"
  enhancedImage :: "js_string option"
  isLoading :: bool
  error :: "js_string option"
  customPrompt :: js_string
  activeFilter :: "js_string option"

definition initial :: session where
  "initial = \<lparr>originalImage = None, enhancedImage = None, isLoading = False,
              error = None, customPrompt = [], activeFilter = None\<rparr>"

text \<open>
  A call of \<^verbatim>\<open>enhanceImage(sourceImage, prompt)\<close>: the image and the instruction
  handed to the transformation engine.
\<close>

type_synonym engine_call = "js_string \<times> js_string"

subsection \<open>\<^verbatim>\<open>handleImageUpload\<close>\<close>

text \<open>
  The handler is asynchronous.  Its synchronous prefix runs up to the
  \<^verbatim>\<open>await\<close>; the continuation runs on whatever the state is when
  \<^verbatim>\<open>fileToBase64(file)\<close> settles, with \<open>Inr base64\<close> for a resolved and
  \<open>Inl e\<close> for a rejected promise.  Every setter writes one cell and leaves the
  others as they are.
\<close>

definition handleImageUpload_start :: "session \<Rightarrow> session" where
  "handleImageUpload_start s =
     s\<lparr>isLoading := True, error := None, originalImage := None, enhancedImage := None\<rparr>"

definition handleImageUpload_finish :: "session \<Rightarrow> 'e + js_string \<Rightarrow> session" where
  "handleImageUpload_finish s r =
     (case r of
        Inr base64 \<Rightarrow> s\<lparr>originalImage := Some base64\<rparr>
      | Inl e \<Rightarrow> s\<lparr>error := Some (js ''Failed to load image. Please try again.'')\<rparr>)
     \<lparr>isLoading := False\<rparr>"

text \<open>
  The whole handler when nothing else runs in between; \<open>r\<close> is what
  \<^verbatim>\<open>fileToBase64(file)\<close> of \<^verbatim>\<open>utils/fileUtils\<close> settles to.
\<close>

definition handleImageUpload :: "session \<Rightarrow> 'e + js_string \<Rightarrow> session" where
  "handleImageUpload s r = handleImageUpload_finish (handleImageUpload_start s) r"

subsection \<open>\<^verbatim>\<open>runEnhancement\<close>\<close>

definition sourceImage :: "session \<Rightarrow> js_string option" where
  "sourceImage s = js_or (enhancedImage s) (originalImage s)"

text \<open>
  The synchronous prefix returns the new state and the engine call it
  dispatches, if any.  \<^verbatim>\<open>if (!sourceImage) return\<close> is the only guard.
\<close>

definition runEnhancement_start :: "session \<Rightarrow> js_string \<Rightarrow> session \<times> engine_call option" where
  "runEnhancement_start s prompt =
     (if \<not> truthy (sourceImage s) then (s, None)
      else (s\<lparr>isLoading := True, error := None\<rparr>, Some (the (sourceImage s), prompt)))"

text \<open>
  The continuation after \<^verbatim>\<open>await enhanceImage(sourceImage, prompt)\<close>:
  \<open>Inr result\<close> for a resolved promise, \<open>Inl message\<close> for a rejection whose
  \<^verbatim>\<open>err.message\<close> is \<open>message\<close>.
\<close>

definition runEnhancement_finish :: "session \<Rightarrow> js_string + js_string \<Rightarrow> session" where
  "runEnhancement_finish s r =
     (case r of
        Inr result \<Rightarrow> s\<lparr>enhancedImage := Some result\<rparr>
      | Inl message \<Rightarrow> s\<lparr>error := Some (js ''Enhancement failed: '' @ message)\<rparr>)
     \<lparr>isLoading := False\<rparr>"

text \<open>
  A dispatched call followed by its continuation, when nothing else runs in
  between; \<open>r\<close> is what the engine of \<^verbatim>\<open>services/geminiService\<close> settles to,
  and it is looked at only when a call was dispatched.
\<close>

definition settle :: "session \<times> engine_call option \<Rightarrow> js_string + js_string \<Rightarrow> session" where
  "settle d r = (case d of (s, None) \<Rightarrow> s | (s, Some call) \<Rightarrow> runEnhancement_finish s r)"

definition runEnhancement :: "session \<Rightarrow> js_string \<Rightarrow> js_string + js_string \<Rightarrow> session" where
  "runEnhancement s prompt r = settle (runEnhancement_start s prompt) r"

subsection \<open>The synchronous handlers\<close>

definition handleFilterClick_start :: "session \<Rightarrow> filter \<Rightarrow> session \<times> engine_call option" where
  "handleFilterClick_start s f =
     runEnhancement_start (s\<lparr>activeFilter := Some (filter_id f), customPrompt := []\<rparr>)
       (filter_prompt f)"

definition handleFilterClick :: "session \<Rightarrow> filter \<Rightarrow> js_string + js_string \<Rightarrow> session" where
  "handleFilterClick s f r = settle (handleFilterClick_start s f) r"

definition handleCustomEnhance_start :: "session \<Rightarrow> session \<times> engine_call option" where
  "handleCustomEnhance_start s =
     (if trim (customPrompt s) \<noteq> []
      then runEnhancement_start (s\<lparr>activeFilter := None\<rparr>) (customPrompt s)
      else (s, None))"

definition handleCustomEnhance :: "session \<Rightarrow> js_string + js_string \<Rightarrow> session" where
  "handleCustomEnhance s r = settle (handleCustomEnhance_start s) r"

text \<open>The \<^verbatim>\<open>onChange\<close> of the instruction field: \<^verbatim>\<open>setCustomPrompt(e.target.value)\<close>.\<close>

definition setCustomPrompt :: "session \<Rightarrow> js_string \<Rightarrow> session" where
  "setCustomPrompt s text = s\<lparr>customPrompt := text\<rparr>"

definition handleReset :: "session \<Rightarrow> session" where
  "handleReset s =
     s\<lparr>originalImage := None, enhancedImage := None, error := None,
       customPrompt := [], activeFilter := None\<rparr>"

definition handleRevert :: "session \<Rightarrow> session" where
  "handleRevert s =
     s\<lparr>enhancedImage := None, error := None, activeFilter := None, customPrompt := []\<rparr>"

subsection \<open>What the page shows and which controls fire\<close>

text \<open>
  \<^verbatim>\<open>ImageViewer\<close> is rendered when \<^verbatim>\<open>originalImage\<close> is truthy; its
  ``Before'' image is \<^verbatim>\<open>originalImage\<close>, its ``After'' image is
  \<^verbatim>\<open>enhancedImage\<close> when that is truthy and missing otherwise.
\<close>

definition imageViewer :: "session \<Rightarrow> (js_string \<times> js_string option) option" where
  "imageViewer s =
     (if truthy (originalImage s)
      then Some (the (originalImage s),
                 if truthy (enhancedImage s) then enhancedImage s else None)
      else None)"

text \<open>
  The control panel is rendered when \<^verbatim>\<open>originalImage\<close> is truthy.  A filter
  button carries \<^verbatim>\<open>disabled={isLoading}\<close>, the submit button of the form
  \<^verbatim>\<open>disabled={isLoading || !customPrompt.trim()}\<close>, and the instruction field
  \<^verbatim>\<open>disabled={isLoading}\<close>.  A disabled button fires no click, and a form whose
  submit button is disabled is not submitted.
\<close>

definition filterButton_disabled :: "session \<Rightarrow> bool" where
  "filterButton_disabled s = isLoading s"

definition submitButton_disabled :: "session \<Rightarrow> bool" where
  "submitButton_disabled s = (isLoading s \<or> trim (customPrompt s) = [])"

subsection \<open>The handlers as one step function\<close>

text \<open>
  What the click and submit handlers of the page do at once: the new state and
  the engine call they dispatch, if any.  Only \<^verbatim>\<open>handleFilterClick\<close> and
  \<^verbatim>\<open>handleCustomEnhance\<close> reach \<^verbatim>\<open>enhanceImage\<close>, through
  \<^verbatim>\<open>runEnhancement\<close>.
\<close>

datatype event =
  PresetSelected filter | CustomInstructionSubmitted | RevertRequested | ResetRequested
  | UploadRequested

fun handle :: "session \<Rightarrow> event \<Rightarrow> session \<times> engine_call option" where
  "handle s (PresetSelected f) = handleFilterClick_start s f"
| "handle s CustomInstructionSubmitted = handleCustomEnhance_start s"
| "handle s RevertRequested = (handleRevert s, None)"
| "handle s ResetRequested = (handleReset s, None)"
| "handle s UploadRequested = (handleImageUpload_start s, None)"

subsection \<open>Sequences of transformations\<close>

text \<open>
  A transformation request is a click on a preset or an instruction typed into
  the field and submitted; it comes with what the engine settles to.
\<close>

datatype request = ApplyPreset filter | ApplyCustomInstruction js_string

fun transform :: "session \<Rightarrow> request \<times> (js_string + js_string) \<Rightarrow> session" where
  "transform s (ApplyPreset f, r) = handleFilterClick s f r"
| "transform s (ApplyCustomInstruction text, r) = handleCustomEnhance (setCustomPrompt s text) r"

definition transforms :: "session \<Rightarrow> (request \<times> (js_string + js_string)) list \<Rightarrow> session" where
  "transforms s rs = foldl transform s rs"

subsection \<open>Two sessions used as concrete inputs\<close>

text \<open>A session that holds an uploaded image, and one that also holds an edit.\<close>

definition loaded_session :: session where
  "loaded_session =
     \<lparr>originalImage = Some (js ''A''), enhancedImage = None, isLoading = False,
      error = None, customPrompt = [], activeFilter = None\<rparr>"

definition edited_session :: session where
  "edited_session =
     \<lparr>originalImage = Some (js ''A''), enhancedImage = Some (js ''B''), isLoading = False,
      error = None, customPrompt = [], activeFilter = None\<rparr>"


section \<open>The page as a transition system\<close>

text \<open>
  The session together with the promises that have not settled yet: the number
  of \<^verbatim>\<open>fileToBase64\<close> calls and the \<^verbatim>\<open>enhanceImage\<close> calls in flight, in
  the order of their dispatch.
\<close>

record page =
  sess :: session
  uploads :: nat
  calls :: "engine_call list"

definition initial_page :: page where
  "initial_page = \<lparr>sess = initial, uploads = 0, calls = []\<rparr>"

text \<open>
  What can happen to the page: a file chosen in the file input
  (\<^verbatim>\<open>handleFileChange\<close>) or dropped on its label (\<^verbatim>\<open>handleDrop\<close>), a click on
  the filter button of \<^verbatim>\<open>FILTERS[i]\<close>, typing in the instruction field, a
  submission of the form, a click on ``Start Over'' or ``Revert All'', and the
  settling of a promise in flight.
\<close>

datatype page_event =
    FileChosen | FileDropped | UploadSettled "unit + js_string"
  | FilterClicked nat | PromptTyped js_string | FormSubmitted
  | ResetClicked | RevertClicked
  | EngineSettled nat "js_string + js_string"

text \<open>
  Which events the page can receive, as the JSX gates them.  The uploader is
  rendered when \<^verbatim>\<open>originalImage\<close> is falsy; its input carries
  \<^verbatim>\<open>disabled={isLoading}\<close>, but \<^verbatim>\<open>onDrop\<close> sits on the label and
  \<^verbatim>\<open>handleDrop\<close> does not look at \<^verbatim>\<open>isLoading\<close>.  The viewer and the controls
  are rendered when \<^verbatim>\<open>originalImage\<close> is truthy; ``Start Over'' carries
  \<^verbatim>\<open>disabled={isLoading}\<close> and ``Revert All''
  \<^verbatim>\<open>disabled={!enhancedImage || isLoading}\<close>.  A promise settles only while
  it is in flight.

  Modelled from the spec: \<^verbatim>\<open>fileToBase64\<close> of \<^verbatim>\<open>utils/fileUtils\<close> is not part
  of the sources; it resolves to the canonical encoded string
  \<^verbatim>\<open>data:<mime>;base64,<payload>\<close>, which is never empty.
\<close>

fun enabled :: "page \<Rightarrow> page_event \<Rightarrow> bool" where
  "enabled pg FileChosen =
     (\<not> truthy (originalImage (sess pg)) \<and> \<not> isLoading (sess pg))"
| "enabled pg FileDropped = (\<not> truthy (originalImage (sess pg)))"
| "enabled pg (UploadSettled r) =
     (0 < uploads pg \<and> (case r of Inl e \<Rightarrow> True | Inr base64 \<Rightarrow> base64 \<noteq> []))"
| "enabled pg (FilterClicked i) =
     (truthy (originalImage (sess pg)) \<and> \<not> filterButton_disabled (sess pg)
      \<and> i < length FILTERS)"
| "enabled pg (PromptTyped t) =
     (truthy (originalImage (sess pg)) \<and> \<not> isLoading (sess pg))"
| "enabled pg FormSubmitted =
     (truthy (originalImage (sess pg)) \<and> \<not> submitButton_disabled (sess pg))"
| "enabled pg ResetClicked =
     (truthy (originalImage (sess pg)) \<and> \<not> isLoading (sess pg))"
| "enabled pg RevertClicked =
     (truthy (originalImage (sess pg)) \<and> truthy (enhancedImage (sess pg))
      \<and> \<not> isLoading (sess pg))"
| "enabled pg (EngineSettled k r) = (k < length (calls pg))"

text \<open>A handler's new state, and the call it dispatched added to those in flight.\<close>

definition dispatch :: "page \<Rightarrow> session \<times> engine_call option \<Rightarrow> page" where
  "dispatch pg d =
     pg\<lparr>sess := fst d,
        calls := calls pg @ (case snd d of None \<Rightarrow> [] | Some call \<Rightarrow> [call])\<rparr>"

text \<open>What an event does: the handler the JSX attaches to it.\<close>

fun fire :: "page \<Rightarrow> page_event \<Rightarrow> page" where
  "fire pg FileChosen =
     pg\<lparr>sess := handleImageUpload_start (sess pg), uploads := Suc (uploads pg)\<rparr>"
| "fire pg FileDropped =
     pg\<lparr>sess := handleImageUpload_start (sess pg), uploads := Suc (uploads pg)\<rparr>"
| "fire pg (UploadSettled r) =
     pg\<lparr>sess := handleImageUpload_finish (sess pg) r, uploads := uploads pg - 1\<rparr>"
| "fire pg (FilterClicked i) = dispatch pg (handleFilterClick_start (sess pg) (FILTERS ! i))"
| "fire pg (PromptTyped t) = pg\<lparr>sess := setCustomPrompt (sess pg) t\<rparr>"
| "fire pg FormSubmitted = dispatch pg (handleCustomEnhance_start (sess pg))"
| "fire pg ResetClicked = pg\<lparr>sess := handleReset (sess pg)\<rparr>"
| "fire pg RevertClicked = pg\<lparr>sess := handleRevert (sess pg)\<rparr>"
| "fire pg (EngineSettled k r) =
     pg\<lparr>sess := runEnhancement_finish (sess pg) r,
        calls := take k (calls pg) @ drop (Suc k) (calls pg)\<rparr>"

text \<open>An event that the page cannot receive leaves it as it is.\<close>

definition deliver :: "page \<Rightarrow> page_event \<Rightarrow> page" where
  "deliver pg e = (if enabled pg e then fire pg e else pg)"

text \<open>
  A run of the page: \<open>Some\<close> of the page reached when every event of the list
  could be received in its turn, \<open>None\<close> otherwise.
\<close>

fun run :: "page \<Rightarrow> page_event list \<Rightarrow> page option" where
  "run pg [] = Some pg"
| "run pg (e # es) = (if enabled pg e then run (fire pg e) es else None)"


definition single_flight :: "page \<Rightarrow> bool" where
  "single_flight pg =
     (uploads pg + length (calls pg) \<le> 1
      \<and> isLoading (sess pg) = (uploads pg + length (calls pg) = 1)
      \<and> (calls pg = [] \<or> truthy (originalImage (sess pg)))
      \<and> (truthy (originalImage (sess pg))
          \<or> originalImage (sess pg) = None \<and> enhancedImage (sess pg) = None))"


section \<open>The progress bar: the component\<close>

subsection \<open>JavaScript numbers\<close>

text \<open>
  A JavaScript number is an IEEE 754 binary64 value.  A finite one is a
  rational, and every arithmetic operation returns the exact result rounded to
  the nearest representable value, ties to the even significand.  \<open>fl\<close> is
  that rounding: significands of 53 bits, exponents from \<open>-1022\<close> up, below
  which the spacing stays \<open>2 powi (- 1074)\<close>.  The progress bar computes
  with values between 0 and 200 only, far from the overflow threshold.
\<close>

type_synonym js_number = rat

definition round_half_even :: "rat \<Rightarrow> int" where
  "round_half_even x =
     (let f = \<lfloor>x\<rfloor>; d = x - of_int f
      in if d < 1 / 2 then f else if 1 / 2 < d then f + 1 else if even f then f else f + 1)"

text \<open>
  The binary exponent of a positive rational, \<open>2 powi ilog2 x \<le> x < 2 powi (ilog2 x + 1)\<close>
  (\<open>ilog2_bounds\<close> below), from the bit lengths of integers.
\<close>

definition ilog2 :: "rat \<Rightarrow> int" where
  "ilog2 x = (if 1 \<le> x then bitlen \<lfloor>x\<rfloor> - 1 else - bitlen (\<lceil>1 / x\<rceil> - 1))"

definition fl :: "rat \<Rightarrow> js_number" where
  "fl x =
     (if x = 0 then 0
      else let e = max (ilog2 \<bar>x\<bar>) (- 1022); q = 2 powi (e - 52)
           in sgn x * of_int (round_half_even (\<bar>x\<bar> / q)) * q)"

definition js_add :: "js_number \<Rightarrow> js_number \<Rightarrow> js_number" where
  "js_add a b = fl (a + b)"

definition js_sub :: "js_number \<Rightarrow> js_number \<Rightarrow> js_number" where
  "js_sub a b = fl (a - b)"

definition js_mul :: "js_number \<Rightarrow> js_number \<Rightarrow> js_number" where
  "js_mul a b = fl (a * b)"

subsection \<open>\<^verbatim>\<open>ProgressBar\<close>\<close>

text \<open>
  The \<^verbatim>\<open>progress\<close> cell of the component and whether the timer created by
  \<^verbatim>\<open>setInterval\<close> is still running.
\<close>

record progress_bar =
  progress :: js_number
  interval :: bool

text \<open>
  The effect runs when \<^verbatim>\<open>isLoading\<close> changes, after the cleanup of its
  previous run has cleared that run's timer.
\<close>

definition useEffect_isLoading :: "bool \<Rightarrow> progress_bar \<Rightarrow> progress_bar" where
  "useEffect_isLoading loading pb =
     (if loading then pb\<lparr>progress := 0, interval := True\<rparr>
      else pb\<lparr>progress := 100, interval := False\<rparr>)"

text \<open>
  One firing of the timer, every 200 ms while it runs: the updater passed to
  \<^verbatim>\<open>setProgress\<close>.  The literal \<^verbatim>\<open>0.1\<close> denotes the double nearest to one
  tenth.
\<close>

definition tick :: "progress_bar \<Rightarrow> progress_bar" where
  "tick pb =
     (if \<not> interval pb then pb
      else if 95 \<le> progress pb then pb\<lparr>progress := 95, interval := False\<rparr>
      else let diff = js_mul (js_sub 100 (progress pb)) (fl (1 / 10))
           in pb\<lparr>progress := js_add (progress pb) diff\<rparr>)"

fun ticks :: "nat \<Rightarrow> progress_bar \<Rightarrow> progress_bar" where
  "ticks 0 pb = pb"
| "ticks (Suc n) pb = ticks n (tick pb)"

text \<open>
  The values of \<^verbatim>\<open>progress\<close> after 0, 1, ..., 30 firings of the timer in a
  pending interval, as \<open>ticks_pending_values\<close> below proves.
\<close>

definition pending_values :: "js_number list" where
  "pending_values =
     [0,
      10,
      19,
      3813985934429389 / 140737488355328,
      2419981112269865 / 70368744177664,
      5763340885639037 / 140737488355328,
      6594381680628413 / 140737488355328,
      1835579599029713 / 35184372088832,
      8015461440060247 / 140737488355328,
      4310645089803751 / 70368744177664,
      286454251412501 / 4398046511104,
      2414314331058327 / 35184372088832,
      5049453237681629 / 70368744177664,
      2624097677845053 / 35184372088832,
      5427063261897735 / 70368744177664,
      2794022188742301 / 35184372088832,
      2866463690756391 / 35184372088832,
      183228815160567 / 2199023255552,
      2990338659200485 / 35184372088832,
      6086297028337513 / 70368744177664,
      3090677383640201 / 35184372088832,
      3133453366164501 / 35184372088832,
      3171951750436371 / 35184372088832,
      1603300148140527 / 17592186044416,
      6475567975082537 / 70368744177664,
      6531698619350923 / 70368744177664,
      6582216199192471 / 70368744177664,
      828460252631233 / 8796093022208,
      3334300630360759 / 35184372088832,
      3352714288213003 / 35184372088832,
      95]"


section \<open>Auxiliary facts\<close>


lemma js_nonempty: "js (c # cs) \<noteq> []"
  by (simp add: js_def)

text \<open>No transformation request writes \<^verbatim>\<open>originalImage\<close>, whatever the engine answers.\<close>

lemma transform_originalImage: "originalImage (transform s (q, r)) = originalImage s"
  by (cases q)
    (auto simp add: handleFilterClick_def handleFilterClick_start_def handleCustomEnhance_def
      handleCustomEnhance_start_def setCustomPrompt_def settle_def runEnhancement_start_def
      runEnhancement_finish_def split: sum.splits)

lemma transforms_originalImage: "originalImage (transforms s rs) = originalImage s"
  unfolding transforms_def
  by (induction rs arbitrary: s) (auto simp add: transform_originalImage)


subsection \<open>Facts about the page\<close>

text \<open>Evaluating runs of the page on concrete events.\<close>

lemma length_FILTERS: "length FILTERS = 5"
  by (simp add: FILTERS_def)

lemma sharpen: "filter_id (FILTERS ! Suc 0) = js ''sharpen''"
  by (simp add: FILTERS_def)

lemmas page_eval = initial_page_def initial_def dispatch_def handleImageUpload_start_def
  handleImageUpload_finish_def handleFilterClick_start_def handleCustomEnhance_start_def
  runEnhancement_start_def runEnhancement_finish_def sourceImage_def js_or_def
  handleReset_def handleRevert_def setCustomPrompt_def filterButton_disabled_def
  submitButton_disabled_def length_FILTERS sharpen js_nonempty





text \<open>
  Every event the page can receive, other than a dropped file, keeps a single
  promise in flight.
\<close>

lemma single_flight_idle:
  assumes "single_flight pg" and "\<not> isLoading (sess pg)"
  shows "uploads pg = 0" and "calls pg = []"
proof -
  from assms have "uploads pg + length (calls pg) \<le> 1"
    and "uploads pg + length (calls pg) \<noteq> 1"
    by (simp_all add: single_flight_def)
  then have "uploads pg + length (calls pg) = 0"
    by arith
  then show "uploads pg = 0" and "calls pg = []"
    by simp_all
qed

lemma fire_single_flight:
  assumes "enabled pg e" and "e \<noteq> FileDropped" and "single_flight pg"
  shows "single_flight (fire pg e)"
proof (cases e)
  case (UploadSettled r)
  with assms show ?thesis
    by (cases r) (auto simp add: single_flight_def handleImageUpload_finish_def)
next
  case (FilterClicked i)
  with assms have "\<not> isLoading (sess pg)"
    by (simp add: filterButton_disabled_def)
  with assms have "uploads pg = 0" and "calls pg = []"
    by (simp_all add: single_flight_idle)
  with assms FilterClicked show ?thesis
    by (auto simp add: single_flight_def dispatch_def handleFilterClick_start_def
        runEnhancement_start_def sourceImage_def js_or_def filterButton_disabled_def)
next
  case FormSubmitted
  with assms have "\<not> isLoading (sess pg)"
    by (simp add: submitButton_disabled_def)
  with assms have "uploads pg = 0" and "calls pg = []"
    by (simp_all add: single_flight_idle)
  with assms FormSubmitted show ?thesis
    by (auto simp add: single_flight_def dispatch_def handleCustomEnhance_start_def
        runEnhancement_start_def sourceImage_def js_or_def submitButton_disabled_def)
next
  case (EngineSettled k r)
  with assms have "length (calls pg) = 1" and "k = 0" and "uploads pg = 0"
    by (auto simp add: single_flight_def)
  with assms EngineSettled show ?thesis
    by (cases r) (auto simp add: single_flight_def runEnhancement_finish_def)
next
  case FileChosen
  with assms have "\<not> isLoading (sess pg)"
    by simp
  with assms have "uploads pg = 0" and "calls pg = []"
    by (simp_all add: single_flight_idle)
  then show ?thesis
    by (simp add: FileChosen single_flight_def handleImageUpload_start_def)
next
  case FileDropped
  with assms show ?thesis
    by simp
next
  case (PromptTyped t)
  with assms show ?thesis
    by (simp add: single_flight_def setCustomPrompt_def)
next
  case ResetClicked
  with assms have "\<not> isLoading (sess pg)"
    by simp
  with assms have "uploads pg = 0" and "calls pg = []"
    by (simp_all add: single_flight_idle)
  with assms show ?thesis
    by (simp add: ResetClicked single_flight_def handleReset_def)
next
  case RevertClicked
  with assms show ?thesis
    by (simp add: single_flight_def handleRevert_def)
qed

lemma run_single_flight:
  "run pg es = Some pg' \<Longrightarrow> FileDropped \<notin> set es \<Longrightarrow> single_flight pg
     \<Longrightarrow> single_flight pg'"
proof (induction es arbitrary: pg)
  case Nil
  then show ?case by simp
next
  case (Cons e es)
  then show ?case
    by (auto simp add: fire_single_flight split: if_splits)
qed

lemma initial_single_flight: "single_flight initial_page"
  by (simp add: single_flight_def initial_page_def initial_def)


section \<open>The session state machine\<close>

subsection \<open>C1: a transformation requested while a request is pending\<close>

text \<open>
  While \<^verbatim>\<open>isLoading\<close> holds, the filter buttons and the submit button are
  disabled: a click or a submission is not received and changes nothing.
\<close>

lemma pending_ignores_transformation:
  "isLoading (sess pg) \<Longrightarrow>
     deliver pg (FilterClicked i) = pg \<and> deliver pg FormSubmitted = pg"
  by (simp add: deliver_def filterButton_disabled_def submitButton_disabled_def)

text \<open>
  As long as no file is dropped, at most one promise is in flight, and so at
  most one engine call.
\<close>

lemma single_flight_without_drop:
  assumes "run initial_page es = Some pg" and "FileDropped \<notin> set es"
  shows "uploads pg + length (calls pg) \<le> 1"
  using run_single_flight [OF assms initial_single_flight]
  by (simp add: single_flight_def)

text \<open>
  C1: at most one transformation request is in flight at any time.  The page
  breaks this through \<^verbatim>\<open>handleDrop\<close>, which starts an upload while another is
  loading: a file is chosen, a second one dropped, the first settles, Sharpen
  is clicked, the second upload settles and sets \<^verbatim>\<open>isLoading\<close> to false
  while the engine call is still in flight, and Sharpen is clicked again.  Two
  engine calls are then in flight.
\<close>

theorem two_engine_calls_in_flight:
  "run initial_page
     [FileChosen, FileDropped, UploadSettled (Inr (js ''A'')), FilterClicked 1,
      UploadSettled (Inr (js ''B'')), FilterClicked 1]
   = Some \<lparr>sess = \<lparr>originalImage = Some (js ''B''), enhancedImage = None, isLoading = True,
                    error = None, customPrompt = [], activeFilter = Some (js ''sharpen'')\<rparr>,
            uploads = 0,
            calls = [(js ''A'', filter_prompt (FILTERS ! 1)),
                     (js ''B'', filter_prompt (FILTERS ! 1))]\<rparr>"
  by (simp add: page_eval)

subsection \<open>C2: an upload whose decoding fails\<close>

text \<open>
  As long as no file is dropped, an upload starts only where both images are
  absent, and a failed one leaves them at their prior values with the
  load-failure message in \<^verbatim>\<open>error\<close>.
\<close>

lemma failed_upload_without_drop:
  assumes "run initial_page es = Some pg" and "FileDropped \<notin> set es"
    and "enabled pg FileChosen"
  shows "originalImage (handleImageUpload (sess pg) (Inl e)) = originalImage (sess pg)
   \<and> enhancedImage (handleImageUpload (sess pg) (Inl e)) = enhancedImage (sess pg)
   \<and> error (handleImageUpload (sess pg) (Inl e))
       = Some (js ''Failed to load image. Please try again.'')"
  using run_single_flight [OF assms(1,2) initial_single_flight] assms(3)
  by (auto simp add: single_flight_def handleImageUpload_def handleImageUpload_start_def
      handleImageUpload_finish_def)

text \<open>
  C2: a failed upload leaves \<^verbatim>\<open>originalImage\<close> and \<^verbatim>\<open>enhancedImage\<close> at their
  prior values.  The page breaks this after a dropped file has let a second
  promise into flight: the engine's answer arrives after ``Start Over'', so
  that an edit is held while no image is loaded; the prefix of the next upload
  clears it, and that upload fails.  The first run ends in the state the
  failing upload starts from, the second in the state it leaves.
\<close>

theorem failed_upload_clears_current:
  "run initial_page
     [FileChosen, FileDropped, UploadSettled (Inr (js ''A'')), FilterClicked 1,
      UploadSettled (Inr (js ''B'')), ResetClicked, EngineSettled 0 (Inr (js ''R''))]
   = Some \<lparr>sess = \<lparr>originalImage = None, enhancedImage = Some (js ''R''), isLoading = False,
                    error = None, customPrompt = [], activeFilter = None\<rparr>,
            uploads = 0, calls = []\<rparr>
   \<and> run initial_page
     [FileChosen, FileDropped, UploadSettled (Inr (js ''A'')), FilterClicked 1,
      UploadSettled (Inr (js ''B'')), ResetClicked, EngineSettled 0 (Inr (js ''R'')),
      FileChosen, UploadSettled (Inl ())]
   = Some \<lparr>sess = \<lparr>originalImage = None, enhancedImage = None, isLoading = False,
                    error = Some (js ''Failed to load image. Please try again.''),
                    customPrompt = [], activeFilter = None\<rparr>,
            uploads = 0, calls = []\<rparr>"
  by (simp add: page_eval)

subsection \<open>C3: an upload that succeeds\<close>



subsection \<open>C4: a transformation whose engine call fails\<close>

text \<open>
  C4: when \<^verbatim>\<open>runEnhancement\<close> dispatches a call (a source image exists) and the
  engine rejects it, \<^verbatim>\<open>enhancedImage\<close> is what it was before the call (so are
  earlier successful edits, and \<^verbatim>\<open>originalImage\<close>), \<^verbatim>\<open>error\<close> holds the
  non-empty text \<^verbatim>\<open>Enhancement failed: \<close> followed by the message, and
  \<^verbatim>\<open>isLoading\<close> is false again.  The continuation of a rejected call leaves
  \<^verbatim>\<open>enhancedImage\<close> alone in whatever state it runs.
\<close>

theorem runEnhancement_failure:
  assumes "truthy (sourceImage s)"
  shows "enhancedImage (runEnhancement s p (Inl msg)) = enhancedImage s
   \<and> originalImage (runEnhancement s p (Inl msg)) = originalImage s
   \<and> error (runEnhancement s p (Inl msg)) = Some (js ''Enhancement failed: '' @ msg)
   \<and> js ''Enhancement failed: '' @ msg \<noteq> []
   \<and> isLoading (runEnhancement s p (Inl msg)) = False
   \<and> enhancedImage (runEnhancement_finish t (Inl msg)) = enhancedImage t"
  using assms
  by (simp add: runEnhancement_def settle_def runEnhancement_start_def
      runEnhancement_finish_def js_nonempty)

theorem runEnhancement_failure_witness:
  "truthy (sourceImage edited_session)
   \<and> enhancedImage (runEnhancement edited_session (js ''glow'') (Inl (js ''quota''))) = Some (js ''B'')
   \<and> error (runEnhancement edited_session (js ''glow'') (Inl (js ''quota'')))
       = Some (js ''Enhancement failed: quota'')"
proof -
  have h: "truthy (sourceImage edited_session)"
    by (simp add: edited_session_def sourceImage_def js_or_def js_nonempty)
  show ?thesis
    using h runEnhancement_failure [OF h, of "js ''glow''" "js ''quota''"]
    by (simp add: edited_session_def js_def)
qed

subsection \<open>C5: the source image of a transformation\<close>

text \<open>
  C5: the image \<^verbatim>\<open>runEnhancement\<close> hands to the engine is \<^verbatim>\<open>enhancedImage\<close>
  when that is present and \<^verbatim>\<open>originalImage\<close> otherwise; when neither is
  present no call is dispatched and the state is returned as it was.  Present
  is what the source tests: not \<^verbatim>\<open>null\<close> and not the empty string.
\<close>

theorem runEnhancement_source:
  "(truthy (enhancedImage s) \<longrightarrow>
      runEnhancement_start s p
        = (s\<lparr>isLoading := True, error := None\<rparr>, Some (the (enhancedImage s), p)))
   \<and> (\<not> truthy (enhancedImage s) \<and> truthy (originalImage s) \<longrightarrow>
      runEnhancement_start s p
        = (s\<lparr>isLoading := True, error := None\<rparr>, Some (the (originalImage s), p)))
   \<and> (\<not> truthy (enhancedImage s) \<and> \<not> truthy (originalImage s) \<longrightarrow>
      runEnhancement_start s p = (s, None) \<and> runEnhancement s p r = s)"
  by (simp add: runEnhancement_def settle_def runEnhancement_start_def sourceImage_def js_or_def)

theorem runEnhancement_source_witness:
  "truthy (enhancedImage edited_session)
   \<and> snd (runEnhancement_start edited_session (js ''glow'')) = Some (js ''B'', js ''glow'')
   \<and> \<not> truthy (enhancedImage loaded_session)
   \<and> truthy (originalImage loaded_session)
   \<and> snd (runEnhancement_start loaded_session (js ''glow'')) = Some (js ''A'', js ''glow'')
   \<and> \<not> truthy (originalImage initial) \<and> \<not> truthy (enhancedImage initial)
   \<and> runEnhancement_start initial (js ''glow'') = (initial, None)"
  using
    runEnhancement_source [of edited_session "js ''glow''"]
    runEnhancement_source [of loaded_session "js ''glow''"]
    runEnhancement_source [of initial "js ''glow''"]
  by (simp add: edited_session_def loaded_session_def initial_def js_nonempty)

subsection \<open>C6: reverting to the original\<close>

text \<open>
  C6: after any sequence of transformation requests from a state \<open>s\<close>,
  whatever the engine answered, \<^verbatim>\<open>handleRevert\<close> leaves \<^verbatim>\<open>enhancedImage\<close>,
  \<^verbatim>\<open>error\<close> and \<^verbatim>\<open>activeFilter\<close> absent and \<^verbatim>\<open>originalImage\<close> equal to the
  one of \<open>s\<close>.  The viewer then shows that image alone, no intermediate result,
  and it is the source of the next transformation.  \<^verbatim>\<open>handleRevert\<close> is
  synchronous: it dispatches no engine call, and it does not write
  \<^verbatim>\<open>isLoading\<close>.
\<close>

theorem handleRevert_restores_original:
  "enhancedImage (handleRevert (transforms s rs)) = None
   \<and> error (handleRevert (transforms s rs)) = None
   \<and> activeFilter (handleRevert (transforms s rs)) = None
   \<and> originalImage (handleRevert (transforms s rs)) = originalImage s
   \<and> sourceImage (handleRevert (transforms s rs)) = originalImage s
   \<and> imageViewer (handleRevert (transforms s rs))
       = (if truthy (originalImage s) then Some (the (originalImage s), None) else None)
   \<and> handle t RevertRequested = (handleRevert t, None)
   \<and> isLoading (handleRevert t) = isLoading t"
proof -
  have o: "originalImage (handleRevert (transforms s rs)) = originalImage s"
    by (simp add: handleRevert_def transforms_originalImage)
  have e: "enhancedImage (handleRevert (transforms s rs)) = None"
    by (simp add: handleRevert_def)
  have "sourceImage (handleRevert (transforms s rs)) = originalImage s"
    unfolding sourceImage_def o e by (simp add: js_or_def)
  moreover have "imageViewer (handleRevert (transforms s rs))
       = (if truthy (originalImage s) then Some (the (originalImage s), None) else None)"
    unfolding imageViewer_def o e by simp
  ultimately show ?thesis
    using o e by (simp add: handleRevert_def)
qed

subsection \<open>C7: invalid transformation requests\<close>



subsection \<open>C9: reset\<close>

text \<open>
  C9: \<^verbatim>\<open>handleReset\<close> leaves \<^verbatim>\<open>originalImage\<close>, \<^verbatim>\<open>enhancedImage\<close>,
  \<^verbatim>\<open>error\<close> and \<^verbatim>\<open>activeFilter\<close> absent whatever the prior state: the result
  is the initial, empty session (with \<^verbatim>\<open>isLoading\<close> as it was), for which no
  viewer is rendered.  Resetting again gives the same state.
\<close>

theorem handleReset_empty_idempotent:
  "originalImage (handleReset s) = None
   \<and> enhancedImage (handleReset s) = None
   \<and> error (handleReset s) = None
   \<and> activeFilter (handleReset s) = None
   \<and> handleReset s = initial\<lparr>isLoading := isLoading s\<rparr>
   \<and> imageViewer (handleReset s) = None
   \<and> handleReset (handleReset s) = handleReset s"
  by (simp add: handleReset_def initial_def imageViewer_def)

subsection \<open>C10: what revert and reset write besides\<close>

text \<open>
  C10: \<^verbatim>\<open>handleRevert\<close> and \<^verbatim>\<open>handleReset\<close> both empty \<^verbatim>\<open>customPrompt\<close>,
  the draft instruction.  Beyond the cells they clear, \<^verbatim>\<open>handleRevert\<close>
  leaves \<^verbatim>\<open>originalImage\<close> and \<^verbatim>\<open>isLoading\<close> as they were and
  \<^verbatim>\<open>handleReset\<close> leaves \<^verbatim>\<open>isLoading\<close> as it was: each is the prior state
  with exactly its listed cells and \<^verbatim>\<open>customPrompt\<close> overwritten.
\<close>

theorem revert_reset_clear_customPrompt:
  "customPrompt (handleRevert s) = []
   \<and> customPrompt (handleReset s) = []
   \<and> originalImage (handleRevert s) = originalImage s
   \<and> isLoading (handleRevert s) = isLoading s
   \<and> isLoading (handleReset s) = isLoading s
   \<and> handleRevert s = s\<lparr>enhancedImage := None, error := None, activeFilter := None,
        customPrompt := []\<rparr>
   \<and> handleReset s = s\<lparr>originalImage := None, enhancedImage := None, error := None,
        activeFilter := None, customPrompt := []\<rparr>"
  by (simp add: handleRevert_def handleReset_def)


section \<open>The progress bar: its values\<close>

subsection \<open>Evaluating the rounding\<close>

text \<open>
  Rules that let the simplifier compute \<open>fl\<close> on numerals, and some known
  doubles: the nearest to one tenth and to one third, and ties that go to the
  even significand.
\<close>

lemma bitlen_numeral_simps:
  "bitlen 1 = 1"
  "bitlen (numeral (Num.Bit0 n)) = bitlen (numeral n) + 1"
  "bitlen (numeral (Num.Bit1 n)) = bitlen (numeral n) + 1"
  by (subst compute_bitlen, simp)+

lemma floor_rat_numeral:
  "\<lfloor>numeral a / numeral b :: rat\<rfloor> = numeral a div numeral b"
  using floor_divide_of_int_eq [of "numeral a" "numeral b", where ?'a = rat] by simp

lemma ceiling_rat_numeral:
  "\<lceil>numeral a / numeral b :: rat\<rceil> = - (- numeral a div numeral b)"
  using floor_divide_of_int_eq [of "- numeral a" "numeral b", where ?'a = rat]
  by (simp add: ceiling_def)

lemmas fl_eval = fl_def ilog2_def round_half_even_def Let_def bitlen_numeral_simps
  floor_rat_numeral ceiling_rat_numeral

text \<open>Rounding moves a value by at most one half.\<close>

lemma round_half_even_nearest: "\<bar>of_int (round_half_even x) - x\<bar> \<le> 1 / 2"
proof -
  have "of_int \<lfloor>x\<rfloor> \<le> x" and "x < of_int \<lfloor>x\<rfloor> + 1"
    by linarith+
  then show ?thesis
    by (auto simp add: round_half_even_def Let_def)
qed

text \<open>
  \<open>ilog2\<close> is the binary exponent, and \<open>fl\<close> moves a value by at most half
  the spacing of the doubles at that exponent.
\<close>

lemma ilog2_ge1:
  assumes "1 \<le> x"
  shows "2 powi ilog2 x \<le> x \<and> x < 2 powi (ilog2 x + 1)"
proof -
  let ?m = "\<lfloor>x\<rfloor>"
  have m: "0 < ?m" using assms by simp
  then have b: "1 \<le> bitlen ?m"
    by (simp add: bitlen_alt_def)
  from bitlen_bounds [OF m]
  have lo: "2 ^ nat (bitlen ?m - 1) \<le> ?m" and hi: "?m < 2 ^ nat (bitlen ?m)"
    by simp_all
  have "(2::rat) powi (bitlen ?m - 1) = 2 ^ nat (bitlen ?m - 1)"
    using b by (simp add: power_int_def)
  also have "\<dots> = of_int (2 ^ nat (bitlen ?m - 1))"
    by simp
  also have "\<dots> \<le> of_int ?m"
    using lo by (simp only: of_int_le_iff)
  also have "\<dots> \<le> x"
    by simp
  finally have A: "2 powi (bitlen ?m - 1) \<le> x" .
  have "?m + 1 \<le> 2 ^ nat (bitlen ?m)"
    using hi by simp
  then have "(of_int (?m + 1) :: rat) \<le> of_int (2 ^ nat (bitlen ?m))"
    by (simp only: of_int_le_iff)
  moreover have "x < of_int (?m + 1)"
    by simp linarith
  ultimately have "x < of_int (2 ^ nat (bitlen ?m))"
    by linarith
  moreover have "(2::rat) powi (bitlen ?m - 1 + 1) = 2 ^ nat (bitlen ?m)"
    using b by (simp add: power_int_def)
  ultimately have B: "x < 2 powi (bitlen ?m - 1 + 1)"
    by simp
  from A B show ?thesis
    using assms by (simp add: ilog2_def)
qed

lemma ilog2_lt1:
  assumes "0 < x" "x < 1"
  shows "2 powi ilog2 x \<le> x \<and> x < 2 powi (ilog2 x + 1)"
proof -
  let ?c = "\<lceil>1 / x\<rceil>"
  let ?b = "bitlen (?c - 1)"
  have y: "1 < 1 / x" using assms by simp
  then have c: "2 \<le> ?c"
  proof -
    have "(1::rat) < of_int ?c"
      using y by (meson le_of_int_ceiling less_le_trans)
    then have "1 < ?c" by simp
    then show ?thesis by simp
  qed
  then have m: "0 < ?c - 1" by simp
  then have b: "1 \<le> ?b"
    by (simp add: bitlen_alt_def)
  from bitlen_bounds [OF m]
  have lo: "2 ^ nat (?b - 1) \<le> ?c - 1" and hi: "?c - 1 < 2 ^ nat ?b"
    by simp_all
  have "1 / x \<le> of_int ?c" by simp
  also have "(of_int ?c :: rat) \<le> of_int (2 ^ nat ?b)"
    using hi by (simp only: of_int_le_iff)
  finally have "1 / x \<le> 2 ^ nat ?b" by simp
  then have "1 \<le> 2 ^ nat ?b * x"
    using assms by (simp add: field_simps)
  then have "1 / 2 ^ nat ?b \<le> x"
    by (simp add: field_simps)
  moreover have "(2::rat) powi (- ?b) = 1 / 2 ^ nat ?b"
    using b by (simp add: power_int_def field_simps)
  ultimately have A: "2 powi (- ?b) \<le> x" by simp
  have "(of_int (2 ^ nat (?b - 1)) :: rat) \<le> of_int (?c - 1)"
    using lo by (simp only: of_int_le_iff)
  moreover have "(of_int (?c - 1) :: rat) < 1 / x"
    by simp linarith
  ultimately have "(2::rat) ^ nat (?b - 1) < 1 / x"
    by simp
  then have "2 ^ nat (?b - 1) * x < 1"
    using assms by (simp add: field_simps)
  then have "x < 1 / 2 ^ nat (?b - 1)"
    by (simp add: field_simps)
  moreover have "(2::rat) powi (- ?b + 1) = 1 / 2 ^ nat (?b - 1)"
  proof (cases "?b = 1")
    case True
    then show ?thesis by simp
  next
    case False
    with b have "- ?b + 1 < 0" "nat (- (- ?b + 1)) = nat (?b - 1)" by simp_all
    then show ?thesis
      by (simp add: power_int_def field_simps)
  qed
  ultimately have B: "x < 2 powi (- ?b + 1)" by simp
  from A B show ?thesis
    using assms by (simp add: ilog2_def)
qed

lemma ilog2_bounds: "0 < x \<Longrightarrow> 2 powi ilog2 x \<le> x \<and> x < 2 powi (ilog2 x + 1)"
  using ilog2_ge1 [of x] ilog2_lt1 [of x] by (cases "1 \<le> x") simp_all

lemma fl_nearest:
  "\<bar>fl x - x\<bar> \<le> 2 powi (max (ilog2 \<bar>x\<bar>) (- 1022) - 52) / 2"
proof (cases "x = 0")
  case True
  then show ?thesis by (simp add: fl_def)
next
  case False
  define q :: rat where "q = 2 powi (max (ilog2 \<bar>x\<bar>) (- 1022) - 52)"
  define m where "m = round_half_even (\<bar>x\<bar> / q)"
  have q: "0 < q" by (simp add: q_def)
  have f: "fl x = sgn x * of_int m * q"
    using False by (simp add: fl_def Let_def q_def m_def)
  have "\<bar>of_int m - \<bar>x\<bar> / q\<bar> \<le> 1 / 2"
    unfolding m_def by (rule round_half_even_nearest)
  then have "\<bar>of_int m - \<bar>x\<bar> / q\<bar> * q \<le> 1 / 2 * q"
    using q by (simp only: mult_le_cancel_right_pos)
  moreover have "\<bar>of_int m - \<bar>x\<bar> / q\<bar> * q = \<bar>of_int m * q - \<bar>x\<bar>\<bar>"
  proof -
    have "\<bar>of_int m - \<bar>x\<bar> / q\<bar> * q = \<bar>(of_int m - \<bar>x\<bar> / q) * q\<bar>"
      using q by (simp add: abs_mult)
    also have "(of_int m - \<bar>x\<bar> / q) * q = of_int m * q - \<bar>x\<bar>"
      using q by (simp add: left_diff_distrib)
    finally show ?thesis .
  qed
  ultimately have a: "\<bar>of_int m * q - \<bar>x\<bar>\<bar> \<le> q / 2"
    by simp
  have "fl x - x = sgn x * (of_int m * q - \<bar>x\<bar>)"
    by (simp add: f right_diff_distrib mult.assoc sgn_mult_abs)
  then have "\<bar>fl x - x\<bar> = \<bar>of_int m * q - \<bar>x\<bar>\<bar>"
    using False by (simp add: abs_mult abs_sgn_eq)
  with a show ?thesis
    by (simp add: q_def)
qed

lemma fl_examples:
  "fl 95 = 95"
  "fl (1 / 3) = 6004799503160661 / 18014398509481984"
  "fl (2 ^ 53 + 1) = 2 ^ 53"
  "fl (2 ^ 53 + 3) = 2 ^ 53 + 4"
  "fl (- (1 / 10)) = - (3602879701896397 / 36028797018963968)"
  by (simp_all add: fl_eval)

lemma fl_tenth: "fl (1 / 10) = 3602879701896397 / 36028797018963968"
  by (simp add: fl_eval)

subsection \<open>The values of a pending interval\<close>

text \<open>Each firing of the timer from 0 on, computed.\<close>

lemmas tick_eval = tick_def js_add_def js_sub_def js_mul_def fl_tenth fl_eval

lemma tick_step_0:
  "tick \<lparr>progress = 0, interval = True\<rparr>
   = \<lparr>progress = 10, interval = True\<rparr>"
  by (simp add: tick_eval)

lemma tick_step_1:
  "tick \<lparr>progress = 10, interval = True\<rparr>
   = \<lparr>progress = 19, interval = True\<rparr>"
  by (simp add: tick_eval)

lemma tick_step_2:
  "tick \<lparr>progress = 19, interval = True\<rparr>
   = \<lparr>progress = 3813985934429389 / 140737488355328, interval = True\<rparr>"
  by (simp add: tick_eval)

lemma tick_step_3:
  "tick \<lparr>progress = 3813985934429389 / 140737488355328, interval = True\<rparr>
   = \<lparr>progress = 2419981112269865 / 70368744177664, interval = True\<rparr>"
  by (simp add: tick_eval)

lemma tick_step_4:
  "tick \<lparr>progress = 2419981112269865 / 70368744177664, interval = True\<rparr>
   = \<lparr>progress = 5763340885639037 / 140737488355328, interval = True\<rparr>"
  by (simp add: tick_eval)

lemma tick_step_5:
  "tick \<lparr>progress = 5763340885639037 / 140737488355328, interval = True\<rparr>
   = \<lparr>progress = 6594381680628413 / 140737488355328, interval = True\<rparr>"
  by (simp add: tick_eval)

lemma tick_step_6:
  "tick \<lparr>progress = 6594381680628413 / 140737488355328, interval = True\<rparr>
   = \<lparr>progress = 1835579599029713 / 35184372088832, interval = True\<rparr>"
  by (simp add: tick_eval)

lemma tick_step_7:
  "tick \<lparr>progress = 1835579599029713 / 35184372088832, interval = True\<rparr>
   = \<lparr>progress = 8015461440060247 / 140737488355328, interval = True\<rparr>"
  by (simp add: tick_eval)

lemma tick_step_8:
  "tick \<lparr>progress = 8015461440060247 / 140737488355328, interval = True\<rparr>
   = \<lparr>progress = 4310645089803751 / 70368744177664, interval = True\<rparr>"
  by (simp add: tick_eval)

lemma tick_step_9:
  "tick \<lparr>progress = 4310645089803751 / 70368744177664, interval = True\<rparr>
   = \<lparr>progress = 286454251412501 / 4398046511104, interval = True\<rparr>"
  by (simp add: tick_eval)

lemma tick_step_10:
  "tick \<lparr>progress = 286454251412501 / 4398046511104, interval = True\<rparr>
   = \<lparr>progress = 2414314331058327 / 35184372088832, interval = True\<rparr>"
  by (simp add: tick_eval)

lemma tick_step_11:
  "tick \<lparr>progress = 2414314331058327 / 35184372088832, interval = True\<rparr>
   = \<lparr>progress = 5049453237681629 / 70368744177664, interval = True\<rparr>"
  by (simp add: tick_eval)

lemma tick_step_12:
  "tick \<lparr>progress = 5049453237681629 / 70368744177664, interval = True\<rparr>
   = \<lparr>progress = 2624097677845053 / 35184372088832, interval = True\<rparr>"
  by (simp add: tick_eval)

lemma tick_step_13:
  "tick \<lparr>progress = 2624097677845053 / 35184372088832, interval = True\<rparr>
   = \<lparr>progress = 5427063261897735 / 70368744177664, interval = True\<rparr>"
  by (simp add: tick_eval)

lemma tick_step_14:
  "tick \<lparr>progress = 5427063261897735 / 70368744177664, interval = True\<rparr>
   = \<lparr>progress = 2794022188742301 / 35184372088832, interval = True\<rparr>"
  by (simp add: tick_eval)

lemma tick_step_15:
  "tick \<lparr>progress = 2794022188742301 / 35184372088832, interval = True\<rparr>
   = \<lparr>progress = 2866463690756391 / 35184372088832, interval = True\<rparr>"
  by (simp add: tick_eval)

lemma tick_step_16:
  "tick \<lparr>progress = 2866463690756391 / 35184372088832, interval = True\<rparr>
   = \<lparr>progress = 183228815160567 / 2199023255552, interval = True\<rparr>"
  by (simp add: tick_eval)

lemma tick_step_17:
  "tick \<lparr>progress = 183228815160567 / 2199023255552, interval = True\<rparr>
   = \<lparr>progress = 2990338659200485 / 35184372088832, interval = True\<rparr>"
  by (simp add: tick_eval)

lemma tick_step_18:
  "tick \<lparr>progress = 2990338659200485 / 35184372088832, interval = True\<rparr>
   = \<lparr>progress = 6086297028337513 / 70368744177664, interval = True\<rparr>"
  by (simp add: tick_eval)

lemma tick_step_19:
  "tick \<lparr>progress = 6086297028337513 / 70368744177664, interval = True\<rparr>
   = \<lparr>progress = 3090677383640201 / 35184372088832, interval = True\<rparr>"
  by (simp add: tick_eval)

lemma tick_step_20:
  "tick \<lparr>progress = 3090677383640201 / 35184372088832, interval = True\<rparr>
   = \<lparr>progress = 3133453366164501 / 35184372088832, interval = True\<rparr>"
  by (simp add: tick_eval)

lemma tick_step_21:
  "tick \<lparr>progress = 3133453366164501 / 35184372088832, interval = True\<rparr>
   = \<lparr>progress = 3171951750436371 / 35184372088832, interval = True\<rparr>"
  by (simp add: tick_eval)

lemma tick_step_22:
  "tick \<lparr>progress = 3171951750436371 / 35184372088832, interval = True\<rparr>
   = \<lparr>progress = 1603300148140527 / 17592186044416, interval = True\<rparr>"
  by (simp add: tick_eval)

lemma tick_step_23:
  "tick \<lparr>progress = 1603300148140527 / 17592186044416, interval = True\<rparr>
   = \<lparr>progress = 6475567975082537 / 70368744177664, interval = True\<rparr>"
  by (simp add: tick_eval)

lemma tick_step_24:
  "tick \<lparr>progress = 6475567975082537 / 70368744177664, interval = True\<rparr>
   = \<lparr>progress = 6531698619350923 / 70368744177664, interval = True\<rparr>"
  by (simp add: tick_eval)

lemma tick_step_25:
  "tick \<lparr>progress = 6531698619350923 / 70368744177664, interval = True\<rparr>
   = \<lparr>progress = 6582216199192471 / 70368744177664, interval = True\<rparr>"
  by (simp add: tick_eval)

lemma tick_step_26:
  "tick \<lparr>progress = 6582216199192471 / 70368744177664, interval = True\<rparr>
   = \<lparr>progress = 828460252631233 / 8796093022208, interval = True\<rparr>"
  by (simp add: tick_eval)

lemma tick_step_27:
  "tick \<lparr>progress = 828460252631233 / 8796093022208, interval = True\<rparr>
   = \<lparr>progress = 3334300630360759 / 35184372088832, interval = True\<rparr>"
  by (simp add: tick_eval)

lemma tick_step_28:
  "tick \<lparr>progress = 3334300630360759 / 35184372088832, interval = True\<rparr>
   = \<lparr>progress = 3352714288213003 / 35184372088832, interval = True\<rparr>"
  by (simp add: tick_eval)

lemma tick_step_29:
  "tick \<lparr>progress = 3352714288213003 / 35184372088832, interval = True\<rparr>
   = \<lparr>progress = 95, interval = False\<rparr>"
  by (simp add: tick_eval)

lemmas tick_steps =
  tick_step_0 tick_step_1 tick_step_2 tick_step_3 tick_step_4 tick_step_5
  tick_step_6 tick_step_7 tick_step_8 tick_step_9 tick_step_10 tick_step_11
  tick_step_12 tick_step_13 tick_step_14 tick_step_15 tick_step_16 tick_step_17
  tick_step_18 tick_step_19 tick_step_20 tick_step_21 tick_step_22 tick_step_23
  tick_step_24 tick_step_25 tick_step_26 tick_step_27 tick_step_28 tick_step_29

lemma upt_all: "list_all P [0..<k] \<Longrightarrow> n < k \<Longrightarrow> P n"
  by (simp add: list_all_iff)

lemma ticks_Suc_right: "ticks (Suc n) pb = tick (ticks n pb)"
  by (induction n arbitrary: pb) simp_all

lemma tick_pending_values:
  assumes "n < 30"
  shows "tick \<lparr>progress = pending_values ! n, interval = True\<rparr>
         = \<lparr>progress = pending_values ! Suc n, interval = (Suc n < 30)\<rparr>"
proof -
  have "list_all (\<lambda>n. tick \<lparr>progress = pending_values ! n, interval = True\<rparr>
         = \<lparr>progress = pending_values ! Suc n, interval = (Suc n < 30)\<rparr>) [0..<30]"
    by (simp add: upt_conv_Cons pending_values_def tick_steps)
  from upt_all [OF this assms] show ?thesis .
qed

lemma ticks_pending_values:
  "n \<le> 30 \<Longrightarrow>
     ticks n \<lparr>progress = 0, interval = True\<rparr>
     = \<lparr>progress = pending_values ! n, interval = (n < 30)\<rparr>"
proof (induction n)
  case 0
  show ?case by (simp add: pending_values_def)
next
  case (Suc n)
  then have "n < 30" and "ticks n \<lparr>progress = 0, interval = True\<rparr>
     = \<lparr>progress = pending_values ! n, interval = True\<rparr>"
    by simp_all
  then show ?case
    by (simp only: ticks_Suc_right tick_pending_values)
qed

lemma pending_values_below_100: "n \<le> 30 \<Longrightarrow> pending_values ! n < 100"
proof -
  have "list_all (\<lambda>v. v < 100) pending_values"
    by (simp add: pending_values_def)
  moreover have "length pending_values = 31"
    by (simp add: pending_values_def)
  ultimately show "n \<le> 30 \<Longrightarrow> pending_values ! n < 100"
    by (simp add: list_all_length)
qed

lemma pending_values_increasing:
  assumes "n < 29"
  shows "pending_values ! n < pending_values ! Suc n"
proof -
  have "list_all (\<lambda>n. pending_values ! n < pending_values ! Suc n) [0..<29]"
    by (simp add: upt_conv_Cons pending_values_def)
  from upt_all [OF this assms] show ?thesis .
qed

lemma ticks_stopped: "\<not> interval pb \<Longrightarrow> ticks n pb = pb"
  by (induction n) (simp_all add: tick_def)

lemma ticks_add: "ticks (m + n) pb = ticks n (ticks m pb)"
  by (induction m arbitrary: pb) simp_all

lemma ticks_from_30:
  assumes "30 \<le> n"
  shows "ticks n \<lparr>progress = 0, interval = True\<rparr> = \<lparr>progress = 95, interval = False\<rparr>"
proof -
  have a: "ticks 30 \<lparr>progress = 0, interval = True\<rparr> = \<lparr>progress = 95, interval = False\<rparr>"
    using ticks_pending_values [of 30] by (simp add: pending_values_def)
  have "ticks n \<lparr>progress = 0, interval = True\<rparr>
        = ticks (n - 30) (ticks 30 \<lparr>progress = 0, interval = True\<rparr>)"
    using assms ticks_add [of 30 "n - 30"] by simp
  then show ?thesis
    by (simp only: a) (simp add: ticks_stopped)
qed

lemma entering_pending: "useEffect_isLoading True pb = \<lparr>progress = 0, interval = True\<rparr>"
  by (simp add: useEffect_isLoading_def)

lemma leaving_pending: "useEffect_isLoading False pb = \<lparr>progress = 100, interval = False\<rparr>"
  by (simp add: useEffect_isLoading_def)

lemma progress_below_100: "progress (ticks n \<lparr>progress = 0, interval = True\<rparr>) < 100"
proof (cases "n \<le> 30")
  case True
  then show ?thesis
    by (simp add: ticks_pending_values pending_values_below_100)
next
  case False
  then show ?thesis
    by (simp add: ticks_from_30)
qed

lemma progress_increasing:
  assumes "n < 29"
  shows "progress (ticks n \<lparr>progress = 0, interval = True\<rparr>)
         < progress (ticks (Suc n) \<lparr>progress = 0, interval = True\<rparr>)"
proof -
  from assms have "n \<le> 30" and "Suc n \<le> 30"
    by simp_all
  then show ?thesis
    using assms by (simp only: ticks_pending_values) (simp add: pending_values_increasing)
qed

subsection \<open>C8: the progress value\<close>

text \<open>
  C8 as stated fails: the value does reach the ceiling.  The 29th firing of the
  timer takes it past 95, and the 30th sets it to exactly 95.
\<close>

theorem progress_reaches_ceiling:
  "95 < progress (ticks 29 (useEffect_isLoading True \<lparr>progress = 100, interval = False\<rparr>))
   \<and> progress (ticks 30 (useEffect_isLoading True \<lparr>progress = 100, interval = False\<rparr>)) = 95"
  by (simp add: entering_pending ticks_pending_values pending_values_def)

text \<open>
  C8 (amended): on entering the pending state the value is 0.  A firing of the
  timer that finds the value below 95 replaces it by
  \<^verbatim>\<open>prev + (100 - prev) * 0.1\<close> in double arithmetic, and the value is strictly
  increasing over the first 29 firings.  A firing that finds the value at 95
  or above sets it to exactly 95 and clears the timer, so from the 30th firing
  on the value is 95 and stays there.  The value is below 100 throughout, and
  on leaving the pending state it is set to exactly 100, with no timer left
  to change it.
\<close>

theorem progress_while_pending:
  "progress (useEffect_isLoading True pb) = 0
   \<and> progress (ticks k (useEffect_isLoading True pb)) < 100
   \<and> (n < 29 \<longrightarrow>
        progress (ticks n (useEffect_isLoading True pb))
        < progress (ticks (Suc n) (useEffect_isLoading True pb)))
   \<and> (interval b \<and> progress b < 95 \<longrightarrow>
        tick b = b\<lparr>progress :=
                     js_add (progress b) (js_mul (js_sub 100 (progress b)) (fl (1 / 10)))\<rparr>)
   \<and> (interval b \<and> 95 \<le> progress b \<longrightarrow> tick b = \<lparr>progress = 95, interval = False\<rparr>)
   \<and> (30 \<le> m \<longrightarrow>
        ticks m (useEffect_isLoading True pb) = \<lparr>progress = 95, interval = False\<rparr>)
   \<and> useEffect_isLoading False pb = \<lparr>progress = 100, interval = False\<rparr>
   \<and> ticks k (useEffect_isLoading False pb) = \<lparr>progress = 100, interval = False\<rparr>"
proof -
  let ?p = "useEffect_isLoading True pb"
  have p: "?p = \<lparr>progress = 0, interval = True\<rparr>"
    by (rule entering_pending)
  have c1: "progress ?p = 0"
    by (simp add: p)
  have c2: "progress (ticks k ?p) < 100"
    unfolding p by (rule progress_below_100)
  have c3: "n < 29 \<longrightarrow> progress (ticks n ?p) < progress (ticks (Suc n) ?p)"
    unfolding p using progress_increasing by blast
  have c4: "interval b \<and> progress b < 95 \<longrightarrow>
        tick b = b\<lparr>progress :=
                     js_add (progress b) (js_mul (js_sub 100 (progress b)) (fl (1 / 10)))\<rparr>"
    by (simp add: tick_def Let_def)
  have c5: "interval b \<and> 95 \<le> progress b \<longrightarrow>
        tick b = \<lparr>progress = 95, interval = False\<rparr>"
    by (simp add: tick_def)
  have c6: "30 \<le> m \<longrightarrow> ticks m ?p = \<lparr>progress = 95, interval = False\<rparr>"
    unfolding p using ticks_from_30 by blast
  have c7: "useEffect_isLoading False pb = \<lparr>progress = 100, interval = False\<rparr>"
    by (rule leaving_pending)
  have c8: "ticks k (useEffect_isLoading False pb) = \<lparr>progress = 100, interval = False\<rparr>"
    by (simp add: leaving_pending ticks_stopped)
  from c1 c2 c3 c4 c5 c6 c7 c8 show ?thesis
    by (intro conjI)
qed

theorem progress_while_pending_witness:
  "(0 :: nat) < 29
   \<and> progress (ticks 0 (useEffect_isLoading True \<lparr>progress = 100, interval = False\<rparr>)) = 0
   \<and> progress (ticks (Suc 0) (useEffect_isLoading True \<lparr>progress = 100, interval = False\<rparr>)) = 10
   \<and> interval \<lparr>progress = 10, interval = True\<rparr>
   \<and> progress \<lparr>progress = 10, interval = True\<rparr> < 95
   \<and> tick \<lparr>progress = 10, interval = True\<rparr> = \<lparr>progress = 19, interval = True\<rparr>
   \<and> (95 :: rat) \<le> progress \<lparr>progress = 3352714288213003 / 35184372088832, interval = True\<rparr>
   \<and> tick \<lparr>progress = 3352714288213003 / 35184372088832, interval = True\<rparr>
       = \<lparr>progress = 95, interval = False\<rparr>
   \<and> (30 :: nat) \<le> 31
   \<and> ticks 31 (useEffect_isLoading True \<lparr>progress = 100, interval = False\<rparr>)
       = \<lparr>progress = 95, interval = False\<rparr>"
  using
    progress_while_pending [where pb = "\<lparr>progress = 100, interval = False\<rparr>" and n = 0
      and m = 31 and k = 0 and b = "\<lparr>progress = 10, interval = True\<rparr>"]
    progress_while_pending [where pb = "\<lparr>progress = 100, interval = False\<rparr>" and n = 0
      and m = 31 and k = 0
      and b = "\<lparr>progress = 3352714288213003 / 35184372088832, interval = True\<rparr>"]
  by (simp add: entering_pending tick_step_0 tick_step_1)

end
